theory Spec2Isabelle
  imports Main
begin

section \<open>Timestamps and the moment library\<close>

text \<open>
  The collector keeps its timestamps as strings and reads them with the moment library
  (version 2.24.0). A string is kept here as what moment makes of it: \<open>Iso ms\<close> is a string
  that moment reads as the instant \<open>ms\<close> (milliseconds since the epoch), such as the ones
  \<open>toISOString\<close> writes; \<open>Raw s\<close> is a string that moment cannot read; \<open>Null\<close> is the
  JavaScript \<open>null\<close>. A moment object is an \<open>int option\<close>, \<open>None\<close> being the invalid
  moment.
\<close>

datatype tsval = Iso int | Raw string | Null

type_synonym moment = "int option"

text \<open>\<open>moment(x)\<close> for a stored value.\<close>

fun moment_of :: "tsval \<Rightarrow> moment" where
  "moment_of (Iso ms) = Some ms"
| "moment_of (Raw s) = None"
| "moment_of Null = None"

text \<open>\<open>m.toISOString()\<close>: \<open>null\<close> for an invalid moment.\<close>

fun toISOString :: "moment \<Rightarrow> tsval" where
  "toISOString (Some ms) = Iso ms"
| "toISOString None = Null"

text \<open>\<open>m.add(n, unit)\<close> with the amount already in milliseconds; an invalid moment stays
  as it is.\<close>

fun add_ms :: "moment \<Rightarrow> int \<Rightarrow> moment" where
  "add_ms (Some ms) d = Some (ms + d)"
| "add_ms None d = None"

text \<open>\<open>a.isAfter(b)\<close> and \<open>a.isBefore(b)\<close>: false as soon as one side is invalid.\<close>

fun isAfter :: "moment \<Rightarrow> moment \<Rightarrow> bool" where
  "isAfter (Some a) (Some b) = (b < a)"
| "isAfter _ _ = False"

fun isBefore :: "moment \<Rightarrow> moment \<Rightarrow> bool" where
  "isBefore (Some a) (Some b) = (a < b)"
| "isBefore _ _ = False"

text \<open>moment's \<open>absFloor\<close> of a quotient: rounding towards zero.\<close>

definition absFloor_div :: "int \<Rightarrow> int \<Rightarrow> int" where
  "absFloor_div a b = (if a < 0 then - ((- a) div b) else a div b)"

definition ms_per_second :: int where "ms_per_second = 1000"
definition ms_per_hour :: int where "ms_per_hour = 3600000"
definition ms_per_day :: int where "ms_per_day = 86400000"

text \<open>\<open>a.diff(b, unit)\<close>, the unit given in milliseconds: \<open>None\<close> is \<open>NaN\<close>.\<close>

fun diff :: "moment \<Rightarrow> moment \<Rightarrow> int \<Rightarrow> int option" where
  "diff (Some a) (Some b) unit = Some (absFloor_div (a - b) unit)"
| "diff _ _ unit = None"

text \<open>\<open>x > n\<close> for a number that may be \<open>NaN\<close>: every comparison with \<open>NaN\<close> is false.\<close>

fun js_gt :: "int option \<Rightarrow> int \<Rightarrow> bool" where
  "js_gt (Some x) n = (n < x)"
| "js_gt None n = False"

text \<open>\<open>m.endOf('day')\<close> of a valid moment. The collector runs as an AWS Lambda function,
  whose local zone is UTC, so the local day is the UTC day.\<close>

definition endOf_day :: "int \<Rightarrow> int" where
  "endOf_day ms = ms - ms mod ms_per_day + ms_per_day - 1"

section \<open>The collection state\<close>

text \<open>JSON values, as \<open>JSON.parse\<close> returns them.\<close>

datatype json = JNull | JBool bool | JNum int | JStr string
  | JArr "json list" | JObj "(string \<times> json) list"

text \<open>The state object. \<open>nextPage\<close> is \<open>None\<close> when the property is \<open>null\<close> or absent.\<close>

record collection_state =
  application :: json
  since :: tsval
  until :: tsval
  nextPage :: "string option"
  apiQuotaResetDate :: tsval
  poll_interval_sec :: int

text \<open>\<open>_getNextCollectionState\<close>; \<open>pollInterval\<close> is \<open>this.pollInterval\<close> (seconds) and
  \<open>now\<close> the clock reading of \<open>moment()\<close>.\<close>

definition getNextCollectionState :: "int \<Rightarrow> int \<Rightarrow> collection_state \<Rightarrow> collection_state" where
  "getNextCollectionState pollInterval now curState =
    (let nowMoment = Some now;
         curUntilMoment = moment_of (until curState);
         nextSinceTs = (if isAfter curUntilMoment nowMoment
                        then toISOString nowMoment
                        else until curState);
         nextUntilMoment =
           (if js_gt (diff nowMoment (moment_of nextSinceTs) ms_per_hour) 24
            then add_ms (moment_of nextSinceTs) (24 * ms_per_hour)
            else if js_gt (diff nowMoment (moment_of nextSinceTs) ms_per_hour) 1
            then add_ms (moment_of nextSinceTs) (1 * ms_per_hour)
            else add_ms (moment_of nextSinceTs) (pollInterval * ms_per_second));
         nextPollInterval =
           (if js_gt (diff nowMoment nextUntilMoment ms_per_second) pollInterval
            then 1
            else pollInterval)
     in \<lparr>application = application curState,
         since = nextSinceTs,
         until = toISOString nextUntilMoment,
         nextPage = None,
         apiQuotaResetDate = Null,
         poll_interval_sec = nextPollInterval\<rparr>)"

text \<open>\<open>_getNextCollectionStateWithNextPage\<close>.\<close>

definition getNextCollectionStateWithNextPage ::
  "collection_state \<Rightarrow> string \<Rightarrow> collection_state" where
  "getNextCollectionStateWithNextPage curState token =
     \<lparr>application = application curState,
      since = since curState,
      until = until curState,
      nextPage = Some token,
      apiQuotaResetDate = Null,
      poll_interval_sec = 1\<rparr>"

section \<open>The paginated fetcher\<close>

text \<open>The parameters of one page request, built by \<open>pawsGetLogs\<close>.\<close>

record params =
  pageToken :: "string option"
  startTime :: tsval
  endTime :: tsval
  userKey :: string
  applicationName :: json

text \<open>One page of the upstream's answer; \<open>nextPageToken\<close> is \<open>None\<close> when omitted.\<close>

record 'e page =
  items :: "'e list"
  nextPageToken :: "string option"

text \<open>An error of a page request: the \<open>reason\<close> of each entry of its \<open>errors\<close> array,
  \<open>None\<close> when the error object has no such array.\<close>

datatype fetch_error = FetchError (reasons: "string list option")

text \<open>What the promise of \<open>listEvents\<close> settles to: \<open>{accumulator, nextPage}\<close> or a
  rejection.\<close>

datatype 'e fetched = Resolved "'e list" "string option" | Rejected fetch_error

text \<open>
  Modelled from the spec: \<open>utils.listEvents\<close> (the file \<open>utils.js\<close> of the collector is not
  among the sources), after the contract of the Paginated Fetcher, section 4.2. One request
  per iteration, the first with the parameters as given and each later one with the token of
  the page before; the items of every page are appended in order; the loop stops when a page
  comes without a token, or when the number of requests reaches the budget, and a failed
  request rejects the whole fetch, the items gathered so far being dropped. A budget of zero
  or none is one page. \<open>left\<close> counts the requests still allowed after the current one; the
  second component is the list of requests made, in order.
\<close>

fun fetchPages :: "(params \<Rightarrow> fetch_error + 'e page) \<Rightarrow> params \<Rightarrow> nat \<Rightarrow> 'e list \<Rightarrow> params list
    \<Rightarrow> 'e fetched \<times> params list" where
  "fetchPages fetchPage p 0 accumulator calls =
     (case fetchPage p of
        Inl e \<Rightarrow> (Rejected e, calls @ [p])
      | Inr pg \<Rightarrow> (Resolved (accumulator @ items pg) (nextPageToken pg), calls @ [p]))"
| "fetchPages fetchPage p (Suc left) accumulator calls =
     (case fetchPage p of
        Inl e \<Rightarrow> (Rejected e, calls @ [p])
      | Inr pg \<Rightarrow>
          (case nextPageToken pg of
             None \<Rightarrow> (Resolved (accumulator @ items pg) None, calls @ [p])
           | Some t \<Rightarrow> fetchPages fetchPage (p\<lparr>pageToken := Some t\<rparr>) left
                        (accumulator @ items pg) (calls @ [p])))"

text \<open>Modelled from the spec: the page budget of \<open>utils.listEvents\<close>, section 4.2: a
  positive number as it is, zero or unset as one page.\<close>

definition pageBudget_of :: "nat option \<Rightarrow> nat" where
  "pageBudget_of b = (case b of None \<Rightarrow> 1 | Some n \<Rightarrow> if n = 0 then 1 else n)"

text \<open>Modelled from the spec: \<open>utils.listEvents(client, params, accumulator, budget)\<close>,
  the loop above started with no request made; \<open>fetchPage client\<close> is the page request
  of the upstream made with the authorised client.\<close>

definition listEvents :: "('c \<Rightarrow> params \<Rightarrow> fetch_error + 'e page) \<Rightarrow> 'c \<Rightarrow> params \<Rightarrow> 'e list
    \<Rightarrow> nat option \<Rightarrow> 'e fetched \<times> params list" where
  "listEvents fetchPage client p accumulator maxPagesPerInvocation =
     fetchPages (fetchPage client) p (pageBudget_of maxPagesPerInvocation - 1) accumulator []"

section \<open>One invocation\<close>

datatype js_exn = CredsError | SyntaxError | TypeError

text \<open>How an invocation ends: the callback with records, state and delay; the callback with
  an error; or an exception, the callback never being called.\<close>

datatype 'e callback =
    Callback_ok "'e list" collection_state int
  | Callback_err fetch_error
  | Thrown js_exn

text \<open>A truthy stored timestamp: a non-empty string.\<close>

fun truthy_ts :: "tsval \<Rightarrow> bool" where
  "truthy_ts (Iso ms) = True"
| "truthy_ts (Raw s) = (s \<noteq> [])"
| "truthy_ts Null = False"

text \<open>The test of line 86: the quota of an earlier invocation is still exhausted.\<close>

definition quotaInEffect :: "int \<Rightarrow> collection_state \<Rightarrow> bool" where
  "quotaInEffect now state =
     (truthy_ts (apiQuotaResetDate state)
      \<and> isBefore (Some now) (moment_of (apiQuotaResetDate state)))"

text \<open>The parameters of lines 75 to 84; an empty token is falsy.\<close>

definition params_of :: "collection_state \<Rightarrow> params" where
  "params_of state =
     \<lparr>pageToken = (case nextPage state of
                     None \<Rightarrow> None
                   | Some t \<Rightarrow> if t = [] then None else Some t),
      startTime = since state,
      endTime = until state,
      userKey = ''all'',
      applicationName = application state\<rparr>"

text \<open>The \<open>then\<close> handler, lines 91 to 102.\<close>

definition onResolved :: "int \<Rightarrow> int \<Rightarrow> collection_state \<Rightarrow> 'e list \<Rightarrow> string option
    \<Rightarrow> 'e callback" where
  "onResolved pollInterval now state accumulator nextPg =
     (let newState = (case nextPg of
                        None \<Rightarrow> getNextCollectionState pollInterval now state
                      | Some t \<Rightarrow> getNextCollectionStateWithNextPage state t)
      in Callback_ok accumulator newState (poll_interval_sec newState))"

text \<open>The reset date of lines 107 to 114. Every moment here comes from the clock and is
  valid, so the arithmetic is on the instants; the two readings of the clock in the handler
  are taken as one instant.\<close>

definition quotaResetDate :: "int \<Rightarrow> tsval" where
  "quotaResetDate now =
     (let pstCurrentDateTime = now - 8 * ms_per_hour;
          pstEndDateTime = endOf_day pstCurrentDateTime;
          extraBufferSeconds = 60
      in Iso (now + (absFloor_div (pstEndDateTime - pstCurrentDateTime) ms_per_second
                       + extraBufferSeconds) * ms_per_second))"

text \<open>The \<open>catch\<close> handler, lines 103 to 122. \<open>error.errors[0].reason\<close> throws a
  \<open>TypeError\<close> when the error has no \<open>errors\<close> array or an empty one. The state object
  is updated in place and handed back.\<close>

definition onRejected :: "int \<Rightarrow> collection_state \<Rightarrow> fetch_error \<Rightarrow> 'e callback" where
  "onRejected now state error =
     (case reasons error of
        None \<Rightarrow> Thrown TypeError
      | Some [] \<Rightarrow> Thrown TypeError
      | Some (reason # rest) \<Rightarrow>
          if reason = ''dailyLimitExceeded''
          then (let state' = state\<lparr>poll_interval_sec := 900,
                                    apiQuotaResetDate := quotaResetDate now\<rparr>
                in Callback_ok [] state' (poll_interval_sec state'))
          else Callback_err error)"

text \<open>
  \<open>pawsGetLogs\<close>. \<open>credentials\<close> is the outcome of lines 65 to 72, which build the
  authorised client from the secret and the scopes: the client, or the exception thrown.
  \<open>maxPages\<close> is the setting \<open>paws_max_pages_per_invocation\<close>, \<open>None\<close> when
  unset. \<open>t_gate\<close> is the clock at line 86 and \<open>t_done\<close> the clock once the fetch has
  settled. The second component is the list of page requests made.
\<close>

definition pawsGetLogs :: "('c \<Rightarrow> params \<Rightarrow> fetch_error + 'e page) \<Rightarrow> js_exn + 'c \<Rightarrow> nat option
    \<Rightarrow> int \<Rightarrow> int \<Rightarrow> int \<Rightarrow> collection_state \<Rightarrow> 'e callback \<times> params list" where
  "pawsGetLogs fetchPage credentials maxPages pollInterval t_gate t_done state =
     (case credentials of
        Inl exn \<Rightarrow> (Thrown exn, [])
      | Inr client \<Rightarrow>
          if quotaInEffect t_gate state
          then (Callback_ok [] state (poll_interval_sec state), [])
          else (case listEvents fetchPage client (params_of state) [] maxPages of
                  (Resolved accumulator nextPg, calls) \<Rightarrow>
                    (onResolved pollInterval t_done state accumulator nextPg, calls)
                | (Rejected error, calls) \<Rightarrow>
                    (onRejected t_done state error, calls)))"

section \<open>Initialisation\<close>

text \<open>The two settings read at initialisation, each kept as what its parser makes of it.
  \<open>paws_collection_start_ts\<close>: unset or empty, a string moment reads as an instant, or a
  string it cannot read. \<open>paws_collector_param_string_2\<close>: a text \<open>JSON.parse\<close> rejects
  (the unset variable among them), or the value it yields.\<close>

datatype start_ts_env = Start_unset | Start_ts int | Start_garbage string

datatype names_env = Not_json | Json json

text \<open>\<open>pawsInitCollectionState\<close>: the exception thrown, or the arguments of the callback.\<close>

definition pawsInitCollectionState :: "start_ts_env \<Rightarrow> names_env \<Rightarrow> int \<Rightarrow> int
    \<Rightarrow> js_exn + (collection_state list \<times> int)" where
  "pawsInitCollectionState start_env names pollInterval now =
     (let startTs = (case start_env of
                       Start_unset \<Rightarrow> toISOString (add_ms (Some now) (- (5 * 60 * ms_per_second)))
                     | Start_ts ms \<Rightarrow> Iso ms
                     | Start_garbage s \<Rightarrow> Raw s);
          endTs = toISOString (add_ms (moment_of startTs) (pollInterval * ms_per_second))
      in case names of
           Not_json \<Rightarrow> Inl SyntaxError
         | Json (JArr applicationNames) \<Rightarrow>
             Inr (map (\<lambda>app. \<lparr>application = app,
                               since = startTs,
                               until = endTs,
                               nextPage = None,
                               apiQuotaResetDate = Null,
                               poll_interval_sec = 1\<rparr>) applicationNames, 1)
         | Json _ \<Rightarrow> Inl TypeError)"

section \<open>Record normalisation\<close>

text \<open>The candidate paths of lines 19 and 21, each a list of property names.\<close>

definition typeIdPaths :: "string list list" where
  "typeIdPaths = [[''kind'']]"

definition tsPaths :: "string list list" where
  "tsPaths = [[''id'', ''time'']]"

text \<open>The timestamp object that \<open>getMsgTs\<close> of the al-collector-js library hands back;
  \<open>usec\<close> is \<open>None\<close> when absent.\<close>

record msg_ts =
  sec :: int
  usec :: "int option"

record formatted_msg =
  messageTs :: int
  priority :: int
  progName :: string
  message :: string
  messageType :: string
  messageTypeId :: "string option"
  messageTsUs :: "int option"

text \<open>
  Modelled from the spec: the path lookup of the al-collector-js library (the library is
  not among the sources), after section 4.3: a value is looked up along a path of property
  names, and among the candidate paths the first match wins. \<open>None\<close> is a lookup that
  found nothing.
\<close>

fun getProp :: "string list \<Rightarrow> json \<Rightarrow> json option" where
  "getProp [] v = Some v"
| "getProp (k # ks) (JObj props) =
     (case map_of props k of None \<Rightarrow> None | Some v \<Rightarrow> getProp ks v)"
| "getProp (k # ks) v = None"

fun firstMatch :: "string list list \<Rightarrow> json \<Rightarrow> json option" where
  "firstMatch [] msg = None"
| "firstMatch (p # ps) msg =
     (case getProp p msg of Some v \<Rightarrow> Some v | None \<Rightarrow> firstMatch ps msg)"

text \<open>
  Modelled from the spec: \<open>getMsgTs\<close> of the al-collector-js library, after section 4.3:
  the event timestamp, seconds and optional microseconds, is read from the value found
  along the candidate paths, and a lookup that fails is not fatal: a timestamp object is
  handed back all the same, without the optional microseconds. The result is a JavaScript
  value, \<open>None\<close> standing for \<open>null\<close> or \<open>undefined\<close>. \<open>readTs\<close> reads the value
  found as a timestamp, if it is one; \<open>defaultSec\<close> is the seconds of the object handed
  back after a failed lookup, which the spec leaves open.
\<close>

definition getMsgTs :: "int \<Rightarrow> (json \<Rightarrow> msg_ts option) \<Rightarrow> json \<Rightarrow> string list list
    \<Rightarrow> msg_ts option" where
  "getMsgTs defaultSec readTs msg paths =
     Some (case firstMatch paths msg of
             None \<Rightarrow> \<lparr>sec = defaultSec, usec = None\<rparr>
           | Some v \<Rightarrow> (case readTs v of
                          None \<Rightarrow> \<lparr>sec = defaultSec, usec = None\<rparr>
                        | Some ts \<Rightarrow> ts))"

text \<open>
  Modelled from the spec: \<open>getMsgTypeId\<close> of the al-collector-js library, after section
  4.3: the same lookup along the candidate paths; \<open>None\<close> is \<open>undefined\<close>, and a
  \<open>null\<close> found in the event is \<open>Some JNull\<close>.
\<close>

definition getMsgTypeId :: "json \<Rightarrow> string list list \<Rightarrow> json option" where
  "getMsgTypeId msg paths = firstMatch paths msg"

text \<open>
  \<open>pawsFormatLog\<close>. \<open>ts.sec\<close> is read without a test, so a \<open>null\<close> or
  \<open>undefined\<close> timestamp object throws. \<open>render\<close> is the conversion of a value to text
  by the template literal, \<open>stringify\<close> is \<open>JSON.stringify\<close>, and \<open>defaultSec\<close> and
  \<open>readTs\<close> are passed on to the library. A \<open>usec\<close> of zero is falsy.
\<close>

definition pawsFormatLog :: "int \<Rightarrow> (json \<Rightarrow> msg_ts option) \<Rightarrow> (json \<Rightarrow> string) \<Rightarrow> (json \<Rightarrow> string)
    \<Rightarrow> json \<Rightarrow> js_exn + formatted_msg" where
  "pawsFormatLog defaultSec readTs render stringify msg =
     (let typeId = getMsgTypeId msg typeIdPaths
      in case getMsgTs defaultSec readTs msg tsPaths of
           None \<Rightarrow> Inl TypeError
         | Some ts \<Rightarrow>
             Inr \<lparr>messageTs = sec ts,
                  priority = 11,
                  progName = ''GsuiteCollector'',
                  message = stringify msg,
                  messageType = ''json/gsuite'',
                  messageTypeId = (case typeId of
                                     None \<Rightarrow> None
                                   | Some JNull \<Rightarrow> None
                                   | Some v \<Rightarrow> Some (render v)),
                  messageTsUs = (case usec ts of
                                   None \<Rightarrow> None
                                 | Some u \<Rightarrow> if u = 0 then None else Some u)\<rparr>)"

section \<open>Notions used to state the properties\<close>

text \<open>Order on stored timestamps: both sides are instants, and the first is not after the
  second.\<close>

fun ts_le :: "tsval \<Rightarrow> tsval \<Rightarrow> bool" where
  "ts_le (Iso a) (Iso b) = (a \<le> b)"
| "ts_le _ _ = False"

text \<open>The error that the \<open>catch\<close> handler takes for an exhausted daily quota.\<close>

definition quota_error :: "fetch_error \<Rightarrow> bool" where
  "quota_error e = (case reasons e of
                      Some (reason # rest) \<Rightarrow> reason = ''dailyLimitExceeded''
                    | _ \<Rightarrow> False)"

text \<open>The first midnight after \<open>now\<close> in the zone eight hours behind UTC, as a UTC
  instant: the local time there is the UTC time less eight hours.\<close>

definition upcomingMidnightPT :: "int \<Rightarrow> int" where
  "upcomingMidnightPT now = now + (ms_per_day - (now - 8 * ms_per_hour) mod ms_per_day)"

text \<open>The upstream answers the requests that follow the tokens from \<open>q\<close> on with the
  pages \<open>pgs\<close>, in this order: each page but the last carries the token of the next
  request. The last page may carry a token or none.\<close>

fun upstream_pages :: "(params \<Rightarrow> fetch_error + 'e page) \<Rightarrow> params \<Rightarrow> 'e page list \<Rightarrow> bool" where
  "upstream_pages fp q [] = False"
| "upstream_pages fp q [pg] = (fp q = Inr pg)"
| "upstream_pages fp q (pg # pg' # pgs) =
     (fp q = Inr pg
      \<and> (case nextPageToken pg of
            None \<Rightarrow> False
          | Some t \<Rightarrow> upstream_pages fp (q\<lparr>pageToken := Some t\<rparr>) (pg' # pgs)))"

text \<open>One invocation as the host triggers it: the two clock readings and the upstream as it
  answers during that invocation.\<close>

record ('c, 'e) invocation =
  at_gate :: int
  at_done :: int
  upstream :: "'c \<Rightarrow> params \<Rightarrow> fetch_error + 'e page"

text \<open>
  Modelled from the spec: the host that persists the state between invocations (the
  \<open>PawsCollector\<close> base class is not among the sources), after sections 6 and 7: the state
  handed to the callback is the one the next invocation receives, and an invocation that
  fails leaves the previous state in place.
\<close>

definition persisted :: "'e callback \<Rightarrow> collection_state \<Rightarrow> collection_state" where
  "persisted cb state = (case cb of Callback_ok records state' delay \<Rightarrow> state' | _ \<Rightarrow> state)"

text \<open>Modelled from the spec: the states that the host hands to a sequence of invocations,
  each invocation receiving the state persisted after the one before.\<close>

fun states_visited :: "'c \<Rightarrow> nat option \<Rightarrow> int \<Rightarrow> collection_state \<Rightarrow> ('c, 'e) invocation list
    \<Rightarrow> collection_state list" where
  "states_visited client maxPages pollInterval state [] = [state]"
| "states_visited client maxPages pollInterval state (k # ks) =
     state # states_visited client maxPages pollInterval
       (persisted (fst (pawsGetLogs (upstream k) (Inr client) maxPages pollInterval
                          (at_gate k) (at_done k) state)) state) ks"

text \<open>The clock never runs backwards over a run that starts at \<open>t\<close>.\<close>

fun clock_ok :: "int \<Rightarrow> ('c, 'e) invocation list \<Rightarrow> bool" where
  "clock_ok t [] = True"
| "clock_ok t (k # ks) = (t \<le> at_gate k \<and> at_gate k \<le> at_done k \<and> clock_ok (at_done k) ks)"

text \<open>The configured start is not after \<open>now\<close>: unset, or an instant up to \<open>now\<close>.\<close>

fun start_not_after :: "start_ts_env \<Rightarrow> int \<Rightarrow> bool" where
  "start_not_after Start_unset now = True"
| "start_not_after (Start_ts ms) now = (ms \<le> now)"
| "start_not_after (Start_garbage s) now = False"

text \<open>The window of a state at the time \<open>now\<close>: both bounds are instants, in order, the
  window does not start after \<open>now\<close>, and it is no wider than one poll interval unless
  it has ended by \<open>now\<close>.\<close>

definition window_ok :: "int \<Rightarrow> int \<Rightarrow> collection_state \<Rightarrow> bool" where
  "window_ok pollInterval now state =
     (case (since state, until state) of
        (Iso s, Iso u) \<Rightarrow> s \<le> u \<and> s \<le> now \<and> (u \<le> s + pollInterval * ms_per_second \<or> u \<le> now)
      | _ \<Rightarrow> False)"

section \<open>Facts about the drained-window transition\<close>

lemma drained_fields:
  assumes "until st = Iso u"
  shows "getNextCollectionState P now st =
    \<lparr>application = application st,
     since = Iso (min u now),
     until = Iso (min u now +
        (if 24 < absFloor_div (now - min u now) ms_per_hour then 24 * ms_per_hour
         else if 1 < absFloor_div (now - min u now) ms_per_hour then 1 * ms_per_hour
         else P * ms_per_second)),
     nextPage = None,
     apiQuotaResetDate = Null,
     poll_interval_sec =
        (if P < absFloor_div (now - (min u now +
            (if 24 < absFloor_div (now - min u now) ms_per_hour then 24 * ms_per_hour
             else if 1 < absFloor_div (now - min u now) ms_per_hour then 1 * ms_per_hour
             else P * ms_per_second))) ms_per_second
         then 1 else P)\<rparr>"
  using assms by (simp add: getNextCollectionState_def Let_def min_def)

lemma behind_more_than_24: "24 < absFloor_div d ms_per_hour \<longleftrightarrow> 25 * ms_per_hour \<le> d"
  by (auto simp: absFloor_div_def ms_per_hour_def)

lemma behind_more_than_1: "1 < absFloor_div d ms_per_hour \<longleftrightarrow> 2 * ms_per_hour \<le> d"
  by (auto simp: absFloor_div_def ms_per_hour_def)

section \<open>Facts about the fetch loop\<close>

lemma fetchPages_served:
  "upstream_pages fp q pgs \<Longrightarrow> nextPageToken (last pgs) = None \<or> Suc left \<le> length pgs \<Longrightarrow>
   fst (fetchPages fp q left acc calls) =
     Resolved (acc @ concat (map items (take (Suc left) pgs)))
        (nextPageToken (pgs ! (min (length pgs) (Suc left) - 1)))
   \<and> length (snd (fetchPages fp q left acc calls)) = length calls + min (length pgs) (Suc left)"
proof (induction left arbitrary: q pgs acc calls)
  case 0
  then show ?case
    by (cases "(fp, q, pgs)" rule: upstream_pages.cases) (auto split: option.splits)
next
  case (Suc left)
  show ?case
  proof (cases "(fp, q, pgs)" rule: upstream_pages.cases)
    case (1 fp' q')
    with Suc.prems show ?thesis by simp
  next
    case (2 fp' q' pg)
    with Suc.prems show ?thesis by simp
  next
    case (3 fp' q' pg pg' rest)
    with Suc.prems obtain t where t: "fp q = Inr pg" "nextPageToken pg = Some t"
      "upstream_pages fp (q\<lparr>pageToken := Some t\<rparr>) (pg' # rest)"
      by (auto split: option.splits)
    from Suc.prems(2) 3
    have e: "nextPageToken (last (pg' # rest)) = None \<or> Suc left \<le> length (pg' # rest)"
      by auto
    from Suc.IH [OF t(3) e, of "acc @ items pg" "calls @ [q]"] 3 t(1,2)
    show ?thesis by (simp add: min_def)
  qed
qed

lemma served_tokens:
  "upstream_pages fp q pgs \<Longrightarrow> Suc i < length pgs \<Longrightarrow> nextPageToken (pgs ! i) \<noteq> None"
proof (induction fp q pgs arbitrary: i rule: upstream_pages.induct)
  case (1 fp q)
  then show ?case by simp
next
  case (2 fp q pg)
  then show ?case by simp
next
  case (3 fp q pg pg' pgs)
  then show ?case by (cases i) (auto split: option.splits)
qed

lemma fetchPages_first_call:
  "\<exists>rest. snd (fetchPages fp q left acc calls) = calls @ q # rest"
proof (induction left arbitrary: q acc calls)
  case 0
  then show ?case by (auto split: sum.splits)
next
  case (Suc left)
  show ?case
  proof (cases "fp q")
    case (Inl e)
    then show ?thesis by simp
  next
    case (Inr pg)
    show ?thesis
    proof (cases "nextPageToken pg")
      case None
      with Inr show ?thesis by simp
    next
      case (Some t)
      from Suc.IH [of "q\<lparr>pageToken := Some t\<rparr>" "acc @ items pg" "calls @ [q]"]
      obtain rest where "snd (fetchPages fp (q\<lparr>pageToken := Some t\<rparr>) left (acc @ items pg)
          (calls @ [q])) = (calls @ [q]) @ q\<lparr>pageToken := Some t\<rparr> # rest"
        by blast
      with Inr Some show ?thesis by simp
    qed
  qed
qed

lemma fetchPages_error_rejects:
  "q \<in> set (snd (fetchPages fp p left acc calls)) \<Longrightarrow> q \<notin> set calls \<Longrightarrow> fp q = Inl e
   \<Longrightarrow> fst (fetchPages fp p left acc calls) = Rejected e"
proof (induction left arbitrary: p acc calls)
  case 0
  then show ?case by (auto split: sum.splits)
next
  case (Suc left)
  show ?case
  proof (cases "fp p")
    case (Inl e')
    with Suc.prems show ?thesis by auto
  next
    case (Inr pg)
    show ?thesis
    proof (cases "nextPageToken pg")
      case None
      with Inr Suc.prems show ?thesis by auto
    next
      case (Some t)
      from Inr Suc.prems(3) have "q \<noteq> p" by auto
      with Suc.prems(2) have nin: "q \<notin> set (calls @ [p])" by simp
      from Suc.prems(1) Inr Some
      have "q \<in> set (snd (fetchPages fp (p\<lparr>pageToken := Some t\<rparr>) left (acc @ items pg) (calls @ [p])))"
        by simp
      from Suc.IH [OF this nin Suc.prems(3)] Inr Some show ?thesis by simp
    qed
  qed
qed

section \<open>Facts about the quota reset date\<close>

lemma quotaResetDate_bounds:
  "\<exists>r. quotaResetDate now = Iso r
     \<and> upcomingMidnightPT now + 59000 \<le> r \<and> r < upcomingMidnightPT now + 60000"
proof -
  define m where "m = (now - 8 * ms_per_hour) mod ms_per_day"
  define d where "d = ms_per_day - 1 - m"
  have m: "0 \<le> m" "m < ms_per_day" by (simp_all add: m_def ms_per_day_def)
  then have d: "0 \<le> d" by (simp add: d_def)
  have e: "endOf_day (now - 8 * ms_per_hour) - (now - 8 * ms_per_hour) = d"
    by (simp add: endOf_day_def d_def m_def)
  have a: "absFloor_div (endOf_day (now - 8 * ms_per_hour) - (now - 8 * ms_per_hour))
              ms_per_second = d div 1000"
    unfolding e using d by (simp add: absFloor_div_def ms_per_second_def)
  have q: "quotaResetDate now = Iso (now + (d div 1000 + 60) * 1000)"
    by (simp add: quotaResetDate_def Let_def a) (simp add: ms_per_second_def)
  have u: "upcomingMidnightPT now = now + d + 1"
    by (simp add: upcomingMidnightPT_def d_def m_def)
  have "d div 1000 * 1000 = d - d mod 1000" by (simp add: minus_mod_eq_div_mult)
  moreover have "0 \<le> d mod 1000" "d mod 1000 < 1000" by simp_all
  ultimately show ?thesis unfolding q u by (intro exI [of _ "now + (d div 1000 + 60) * 1000"]) auto
qed

lemma upcomingMidnightPT_is_midnight:
  "(upcomingMidnightPT now - 8 * ms_per_hour) mod ms_per_day = 0
   \<and> now < upcomingMidnightPT now \<and> upcomingMidnightPT now \<le> now + ms_per_day"
proof -
  define x where "x = now - 8 * ms_per_hour"
  have z: "(x + (ms_per_day - x mod ms_per_day)) mod ms_per_day = 0"
    by (metis add_diff_eq minus_mod_eq_mult_div mod_add_self2 mod_mult_self1_is_0)
  have eq: "upcomingMidnightPT now - 8 * ms_per_hour = x + (ms_per_day - x mod ms_per_day)"
    by (simp add: upcomingMidnightPT_def x_def)
  have r: "0 \<le> x mod ms_per_day" "x mod ms_per_day < ms_per_day"
    by (simp_all add: ms_per_day_def)
  have "(upcomingMidnightPT now - 8 * ms_per_hour) mod ms_per_day = 0"
    unfolding eq by (rule z)
  moreover from r have "now < upcomingMidnightPT now \<and> upcomingMidnightPT now \<le> now + ms_per_day"
    by (simp add: upcomingMidnightPT_def x_def)
  ultimately show ?thesis by blast
qed

section \<open>Facts about a run of invocations\<close>

lemma fetchPages_rejected_by_upstream:
  "fst (fetchPages fp p left acc calls) = Rejected e \<Longrightarrow> \<exists>q. fp q = Inl e"
proof (induction left arbitrary: p acc calls)
  case 0
  then show ?case by (auto split: sum.splits)
next
  case (Suc left)
  then show ?case by (auto split: sum.splits option.splits)
qed

lemma ts_le_trans: "ts_le a b \<Longrightarrow> ts_le b c \<Longrightarrow> ts_le a c"
  by (cases a; cases b; cases c) simp_all

lemma window_ok_later: "window_ok P t st \<Longrightarrow> t \<le> t' \<Longrightarrow> window_ok P t' st"
  by (auto simp: window_ok_def split: tsval.splits)

lemma window_ok_bounds:
  "window_ok P t st \<Longrightarrow> ts_le (since st) (since st) \<and> ts_le (until st) (until st)
     \<and> ts_le (since st) (until st)"
  by (auto simp: window_ok_def split: tsval.splits)

lemma drained_step:
  assumes P: "0 \<le> P" and ok: "window_ok P t st" and le: "t \<le> now"
  shows "window_ok P now (getNextCollectionState P now st)
       \<and> ts_le (since st) (since (getNextCollectionState P now st))
       \<and> ts_le (until st) (until (getNextCollectionState P now st))"
proof -
  from ok obtain s u where su: "since st = Iso s" "until st = Iso u"
    and b: "s \<le> u" "s \<le> t" "u \<le> s + P * ms_per_second \<or> u \<le> t"
    by (auto simp: window_ok_def split: tsval.splits)
  note f = drained_fields [OF su(2), of P now]
  define s' where "s' = min u now"
  define w where "w = (if 24 < absFloor_div (now - s') ms_per_hour then 24 * ms_per_hour
         else if 1 < absFloor_div (now - s') ms_per_hour then 1 * ms_per_hour
         else P * ms_per_second)"
  have sn: "since (getNextCollectionState P now st) = Iso s'"
    and un: "until (getNextCollectionState P now st) = Iso (s' + w)"
    by (simp_all add: f s'_def w_def)
  have w0: "0 \<le> w" using P by (simp add: w_def ms_per_hour_def ms_per_second_def)
  have s1: "s \<le> s'" using b le by (simp add: s'_def)
  have s2: "s' \<le> now" by (simp add: s'_def)
  have h0: "0 \<le> ms_per_hour" by (simp add: ms_per_hour_def)
  have w1: "w = P * ms_per_second \<or> s' + w \<le> now"
    using h0 by (auto simp: w_def behind_more_than_24 behind_more_than_1)
  have u1: "u \<le> s' + w"
  proof (cases "u \<le> now")
    case True
    then have "s' = u" by (simp add: s'_def)
    with w0 show ?thesis by simp
  next
    case False
    then have e: "s' = now" by (simp add: s'_def)
    then have "w = P * ms_per_second"
      by (simp add: w_def absFloor_div_def)
    moreover from False le b have "u \<le> s + P * ms_per_second" by auto
    ultimately show ?thesis using e b le by simp
  qed
  have "window_ok P now (getNextCollectionState P now st)"
    using w0 s2 w1 by (auto simp: window_ok_def sn un)
  moreover have "ts_le (since st) (since (getNextCollectionState P now st))"
    using s1 by (simp add: su sn)
  moreover have "ts_le (until st) (until (getNextCollectionState P now st))"
    using u1 by (simp add: su un)
  ultimately show ?thesis by blast
qed

lemma invocation_step:
  assumes P: "0 \<le> P" and ok: "window_ok P t st"
    and clock: "t \<le> t_gate" "t_gate \<le> t_done"
    and noquota: "\<forall>q e. fetchPage client q = Inl e \<longrightarrow> \<not> quota_error e"
  shows "window_ok P t_done
           (persisted (fst (pawsGetLogs fetchPage (Inr client) maxPages P t_gate t_done st)) st)
       \<and> ts_le (since st)
           (since (persisted (fst (pawsGetLogs fetchPage (Inr client) maxPages P t_gate t_done st)) st))
       \<and> ts_le (until st)
           (until (persisted (fst (pawsGetLogs fetchPage (Inr client) maxPages P t_gate t_done st)) st))"
proof -
  let ?cb = "fst (pawsGetLogs fetchPage (Inr client) maxPages P t_gate t_done st)"
  from clock have td: "t \<le> t_done" by simp
  note same = window_ok_later [OF ok td] window_ok_bounds [OF ok]
  show ?thesis
  proof (cases "quotaInEffect t_gate st")
    case True
    then have "persisted ?cb st = st" by (simp add: pawsGetLogs_def persisted_def)
    with same show ?thesis by simp
  next
    case False
    obtain out calls where l: "listEvents fetchPage client (params_of st) [] maxPages = (out, calls)"
      by (cases "listEvents fetchPage client (params_of st) [] maxPages")
    show ?thesis
    proof (cases out)
      case (Resolved acc nextPg)
      show ?thesis
      proof (cases nextPg)
        case None
        with False l Resolved have "persisted ?cb st = getNextCollectionState P t_done st"
          by (simp add: pawsGetLogs_def persisted_def onResolved_def Let_def)
        with drained_step [OF P ok td] show ?thesis by simp
      next
        case (Some tok)
        with False l Resolved have "persisted ?cb st = getNextCollectionStateWithNextPage st tok"
          by (simp add: pawsGetLogs_def persisted_def onResolved_def Let_def)
        with same show ?thesis
          by (simp add: getNextCollectionStateWithNextPage_def window_ok_def)
      qed
    next
      case (Rejected e)
      with l have "fst (fetchPages (fetchPage client) (params_of st)
                          (pageBudget_of maxPages - 1) [] []) = Rejected e"
        by (simp add: listEvents_def)
      from fetchPages_rejected_by_upstream [OF this] noquota have "\<not> quota_error e" by blast
      then have "persisted (onRejected t_done st e) st = st"
        by (auto simp: onRejected_def quota_error_def persisted_def split: option.splits list.splits)
      with False l Rejected have "persisted ?cb st = st"
        by (simp add: pawsGetLogs_def)
      with same show ?thesis by simp
    qed
  qed
qed

lemma run_monotone:
  assumes "0 \<le> P"
  shows "window_ok P t st \<Longrightarrow> clock_ok t ks
    \<Longrightarrow> \<forall>k\<in>set ks. \<forall>q e. upstream k client q = Inl e \<longrightarrow> \<not> quota_error e
    \<Longrightarrow> sorted_wrt (\<lambda>a b. ts_le (since a) (since b) \<and> ts_le (until a) (until b))
          (states_visited client maxPages P st ks)
      \<and> (\<forall>s\<in>set (states_visited client maxPages P st ks).
            ts_le (since st) (since s) \<and> ts_le (until st) (until s) \<and> ts_le (since s) (until s))"
proof (induction ks arbitrary: t st)
  case Nil
  with window_ok_bounds [OF Nil(1)] show ?case by simp
next
  case (Cons k ks)
  let ?st' = "persisted (fst (pawsGetLogs (upstream k) (Inr client) maxPages P
                               (at_gate k) (at_done k) st)) st"
  from Cons.prems(2) have c: "t \<le> at_gate k" "at_gate k \<le> at_done k" "clock_ok (at_done k) ks"
    by simp_all
  from Cons.prems(3) have nq: "\<forall>q e. upstream k client q = Inl e \<longrightarrow> \<not> quota_error e"
    and nqs: "\<forall>k\<in>set ks. \<forall>q e. upstream k client q = Inl e \<longrightarrow> \<not> quota_error e"
    by simp_all
  note step = invocation_step [where fetchPage = "upstream k" and client = client
      and maxPages = maxPages, OF assms Cons.prems(1) c(1,2) nq]
  from step have ok': "window_ok P (at_done k) ?st'" by blast
  note ih = Cons.IH [OF ok' c(3) nqs]
  note b = window_ok_bounds [OF Cons.prems(1)]
  have later: "ts_le (since st) (since s) \<and> ts_le (until st) (until s)"
    if "s \<in> set (states_visited client maxPages P ?st' ks)" for s
    using ih step that by (blast intro: ts_le_trans)
  show ?case using ih b later by simp
qed

lemma init_window_ok:
  assumes "0 \<le> P" and "start_not_after start now"
    and "pawsInitCollectionState start names P now = Inr (sts, d)" and "st \<in> set sts"
  shows "window_ok P now st"
proof -
  from assms(3) obtain apps where n: "names = Json (JArr apps)"
    by (cases names; simp add: pawsInitCollectionState_def Let_def split: json.splits)
  from assms(2) obtain s where s: "s \<le> now"
    "(case start of Start_unset \<Rightarrow> toISOString (add_ms (Some now) (- (5 * 60 * ms_per_second)))
      | Start_ts ms \<Rightarrow> Iso ms | Start_garbage s \<Rightarrow> Raw s) = Iso s"
    by (cases start) (simp_all add: ms_per_second_def)
  from assms(3,4) n s(2) have "since st = Iso s \<and> until st = Iso (s + P * ms_per_second)"
    by (auto simp: pawsInitCollectionState_def Let_def)
  with s(1) assms(1) show ?thesis
    by (simp add: window_ok_def ms_per_second_def)
qed

section \<open>The drained window\<close>

text \<open>
  The scenario of the specification, on the code: the state with the window from
  2019-11-21T16:00:00Z to one minute later, a poll interval of 60 seconds, drained at five
  seconds past the end of the window. The next window starts at the previous \<open>until\<close>,
  not at the clock reading, which is the later of the two.
\<close>

theorem drained_since_later_counterexample:
  "getNextCollectionState 60 1574352065000
     \<lparr>application = JStr ''login'', since = Iso 1574352000000, until = Iso 1574352060000,
      nextPage = None, apiQuotaResetDate = Null, poll_interval_sec = 60\<rparr>
   = \<lparr>application = JStr ''login'', since = Iso 1574352060000, until = Iso 1574352120000,
      nextPage = None, apiQuotaResetDate = Null, poll_interval_sec = 60\<rparr>
   \<and> since (getNextCollectionState 60 1574352065000
     \<lparr>application = JStr ''login'', since = Iso 1574352000000, until = Iso 1574352060000,
      nextPage = None, apiQuotaResetDate = Null, poll_interval_sec = 60\<rparr>)
     \<noteq> Iso (max 1574352060000 1574352065000)"
  by (simp add: getNextCollectionState_def Let_def absFloor_div_def ms_per_hour_def
      ms_per_second_def)

text \<open>
  C1, as the code has it. For every state whose \<open>until\<close> is an instant, the next state of
  a drained window has as \<open>since\<close> the earlier of the previous \<open>until\<close> and the clock
  reading, so the next window never starts in the future; the delay handed to the callback
  is the \<open>poll_interval_sec\<close> of the next state, which is the configured poll interval
  unless the whole seconds from the new \<open>until\<close> to the clock reading exceed it, and 1
  then. For a window that ended at \<open>dzero\<close> plus 60 seconds, drained at \<open>dzero\<close> plus
  65 seconds with a poll interval of 60, the next window runs from \<open>dzero\<close> plus 60
  seconds to \<open>dzero\<close> plus 120 seconds and the delay is 60.
\<close>

theorem drained_since_is_earlier:
  assumes "until st = Iso u"
  shows "since (getNextCollectionState P now st) = Iso (min u now)
    \<and> min u now \<le> now
    \<and> (\<exists>u'. until (getNextCollectionState P now st) = Iso u'
          \<and> poll_interval_sec (getNextCollectionState P now st)
              = (if P < absFloor_div (now - u') ms_per_second then 1 else P))
    \<and> onResolved P now st acc None
        = Callback_ok acc (getNextCollectionState P now st)
            (poll_interval_sec (getNextCollectionState P now st))
    \<and> (u = dzero + 60000 \<and> now = dzero + 65000 \<and> P = 60 \<longrightarrow>
          since (getNextCollectionState P now st) = Iso (dzero + 60000)
        \<and> until (getNextCollectionState P now st) = Iso (dzero + 120000)
        \<and> poll_interval_sec (getNextCollectionState P now st) = 60)"
proof -
  let ?st' = "getNextCollectionState P now st"
  note f = drained_fields [OF assms, of P now]
  have a: "since ?st' = Iso (min u now)" by (simp add: f)
  have b: "min u now \<le> now" by simp
  have c: "\<exists>u'. until ?st' = Iso u'
          \<and> poll_interval_sec ?st' = (if P < absFloor_div (now - u') ms_per_second then 1 else P)"
    by (simp add: f)
  have d: "onResolved P now st acc None = Callback_ok acc ?st' (poll_interval_sec ?st')"
    by (simp add: onResolved_def Let_def)
  have e: "u = dzero + 60000 \<and> now = dzero + 65000 \<and> P = 60 \<longrightarrow>
          since ?st' = Iso (dzero + 60000) \<and> until ?st' = Iso (dzero + 120000)
        \<and> poll_interval_sec ?st' = 60"
  proof (intro impI)
    assume h: "u = dzero + 60000 \<and> now = dzero + 65000 \<and> P = 60"
    with assms have "until st = Iso (dzero + 60000)" by simp
    note g = drained_fields [OF this, of 60 "dzero + 65000"]
    from h show "since ?st' = Iso (dzero + 60000) \<and> until ?st' = Iso (dzero + 120000)
        \<and> poll_interval_sec ?st' = 60"
      by (simp add: g absFloor_div_def ms_per_hour_def ms_per_second_def)
  qed
  from a b c d e show ?thesis by blast
qed

theorem drained_since_is_earlier_witness:
  "until \<lparr>application = JStr ''login'', since = Iso 1574352000000, until = Iso 1574352060000,
      nextPage = None, apiQuotaResetDate = Null, poll_interval_sec = 60\<rparr> = Iso 1574352060000
   \<and> since (getNextCollectionState 60 1574352065000
        \<lparr>application = JStr ''login'', since = Iso 1574352000000, until = Iso 1574352060000,
         nextPage = None, apiQuotaResetDate = Null, poll_interval_sec = 60\<rparr>)
       = Iso 1574352060000
   \<and> until (getNextCollectionState 60 1574352065000
        \<lparr>application = JStr ''login'', since = Iso 1574352000000, until = Iso 1574352060000,
         nextPage = None, apiQuotaResetDate = Null, poll_interval_sec = 60\<rparr>)
       = Iso 1574352120000
   \<and> poll_interval_sec (getNextCollectionState 60 1574352065000
        \<lparr>application = JStr ''login'', since = Iso 1574352000000, until = Iso 1574352060000,
         nextPage = None, apiQuotaResetDate = Null, poll_interval_sec = 60\<rparr>)
       = 60"
  using drained_since_is_earlier [where st = "\<lparr>application = JStr ''login'',
      since = Iso 1574352000000, until = Iso 1574352060000,
      nextPage = None, apiQuotaResetDate = Null, poll_interval_sec = 60\<rparr>"
    and u = 1574352060000 and now = 1574352065000 and P = 60 and dzero = 1574352000000
    and acc = "[] :: nat list"]
  by simp

text \<open>
  C2. For every state whose \<open>until\<close> is an instant, the next window of a drained window
  starts at the next \<open>since\<close> and is as wide as the backlog asks: with \<open>behindHours\<close>
  the whole hours from the next \<open>since\<close> to the clock reading, 24 hours when
  \<open>behindHours\<close> is above 24, one hour when it is above 1 and at most 24, and the
  configured poll interval otherwise. However far behind the state is, the width is
  24 hours (86400000 milliseconds) and no more, at 48 hours behind in particular.
\<close>

theorem drained_window_width:
  assumes "until st = Iso u"
  shows "(let nextSince = min u now;
              behindHours = absFloor_div (now - nextSince) ms_per_hour;
              width = (if 24 < behindHours then 24 * ms_per_hour
                       else if 1 < behindHours then 1 * ms_per_hour
                       else P * ms_per_second)
          in since (getNextCollectionState P now st) = Iso nextSince
           \<and> until (getNextCollectionState P now st) = Iso (nextSince + width)
           \<and> (24 < behindHours \<longrightarrow> width = 86400000)
           \<and> (behindHours = 48 \<longrightarrow> width = 86400000)
           \<and> (25 * ms_per_hour \<le> now - u \<longrightarrow> nextSince = u \<and> width = 86400000))"
proof -
  have "25 * ms_per_hour \<le> now - u \<Longrightarrow> min u now = u"
    by (simp add: ms_per_hour_def)
  then show ?thesis
    by (auto simp: drained_fields [OF assms] Let_def behind_more_than_24)
      (simp_all add: ms_per_hour_def)
qed

theorem drained_window_width_witness:
  "until \<lparr>application = JStr ''login'', since = Iso 1574352000000, until = Iso 1574352060000,
      nextPage = None, apiQuotaResetDate = Null, poll_interval_sec = 60\<rparr> = Iso 1574352060000
   \<and> absFloor_div (1574524860000 - 1574352060000) ms_per_hour = 48
   \<and> since (getNextCollectionState 60 1574524860000
        \<lparr>application = JStr ''login'', since = Iso 1574352000000, until = Iso 1574352060000,
         nextPage = None, apiQuotaResetDate = Null, poll_interval_sec = 60\<rparr>)
       = Iso 1574352060000
   \<and> until (getNextCollectionState 60 1574524860000
        \<lparr>application = JStr ''login'', since = Iso 1574352000000, until = Iso 1574352060000,
         nextPage = None, apiQuotaResetDate = Null, poll_interval_sec = 60\<rparr>)
       = Iso (1574352060000 + 86400000)"
  using drained_window_width [where st = "\<lparr>application = JStr ''login'',
      since = Iso 1574352000000, until = Iso 1574352060000,
      nextPage = None, apiQuotaResetDate = Null, poll_interval_sec = 60\<rparr>"
    and u = 1574352060000 and now = 1574524860000 and P = 60]
  by (simp add: Let_def absFloor_div_def ms_per_hour_def)

section \<open>The quota gate\<close>

text \<open>
  C3. For every state whose \<open>apiQuotaResetDate\<close> is an instant still ahead of the clock,
  and whatever the upstream would answer, the invocation hands the callback no records,
  the state as it received it and the state's own \<open>poll_interval_sec\<close> as delay, and it
  makes no page request.
\<close>

theorem quota_in_effect_returns_state_unchanged:
  assumes "apiQuotaResetDate st = Iso q" and "now < q"
  shows "pawsGetLogs fetchPage (Inr client) maxPages P now t_done st
         = (Callback_ok [] st (poll_interval_sec st), [])"
  using assms by (simp add: pawsGetLogs_def quotaInEffect_def)

theorem quota_in_effect_returns_state_unchanged_witness:
  "apiQuotaResetDate \<lparr>application = JStr ''login'', since = Iso 1574352000000,
      until = Iso 1574352060000, nextPage = Some ''tok'',
      apiQuotaResetDate = Iso 1574409659000, poll_interval_sec = 900\<rparr> = Iso 1574409659000
   \<and> (1574352900000 :: int) < 1574409659000
   \<and> pawsGetLogs (\<lambda>c p. Inr \<lparr>items = [1::nat], nextPageToken = None\<rparr>) (Inr ()) (Some 3) 60
        1574352900000 1574352900500
        \<lparr>application = JStr ''login'', since = Iso 1574352000000,
         until = Iso 1574352060000, nextPage = Some ''tok'',
         apiQuotaResetDate = Iso 1574409659000, poll_interval_sec = 900\<rparr>
       = (Callback_ok []
           \<lparr>application = JStr ''login'', since = Iso 1574352000000,
            until = Iso 1574352060000, nextPage = Some ''tok'',
            apiQuotaResetDate = Iso 1574409659000, poll_interval_sec = 900\<rparr> 900, [])"
  using quota_in_effect_returns_state_unchanged [where st = "\<lparr>application = JStr ''login'',
      since = Iso 1574352000000, until = Iso 1574352060000, nextPage = Some ''tok'',
      apiQuotaResetDate = Iso 1574409659000, poll_interval_sec = 900\<rparr>"
    and q = 1574409659000 and now = 1574352900000 and t_done = 1574352900500 and P = 60
    and maxPages = "Some 3" and client = "()"
    and fetchPage = "\<lambda>c p. Inr \<lparr>items = [1::nat], nextPageToken = None\<rparr>"]
  by simp

section \<open>The quota just exceeded\<close>

text \<open>
  C4. When the quota gate is open and the fetch is rejected with the daily-limit error at
  the time \<open>t_done\<close>, the callback receives no records, a delay of 900 seconds (15
  minutes) and the state of the input with \<open>poll_interval_sec\<close> set to 900 and
  \<open>apiQuotaResetDate\<close> set to an instant \<open>r\<close> after \<open>t_done\<close>: \<open>since\<close> and
  \<open>until\<close> are those of the input. With \<open>upcomingMidnightPT t_done\<close> the first
  midnight after \<open>t_done\<close> in the zone eight hours behind UTC, \<open>r\<close> lies 59 seconds or
  more and less than 60 seconds after that midnight.
\<close>

theorem quota_exceeded_schedules_reset:
  assumes "\<not> quotaInEffect t_gate st"
    and "fst (listEvents fetchPage client (params_of st) [] maxPages) = Rejected e"
    and "reasons e = Some (''dailyLimitExceeded'' # rest)"
  shows "\<exists>st' r. fst (pawsGetLogs fetchPage (Inr client) maxPages P t_gate t_done st)
                  = Callback_ok [] st' 900
          \<and> st' = st\<lparr>poll_interval_sec := 900, apiQuotaResetDate := Iso r\<rparr>
          \<and> since st' = since st \<and> until st' = until st
          \<and> poll_interval_sec st' = 15 * 60
          \<and> apiQuotaResetDate st' = Iso r
          \<and> quotaResetDate t_done = Iso r
          \<and> t_done < r
          \<and> upcomingMidnightPT t_done + 59000 \<le> r \<and> r < upcomingMidnightPT t_done + 60000
          \<and> (upcomingMidnightPT t_done - 8 * ms_per_hour) mod ms_per_day = 0
          \<and> t_done < upcomingMidnightPT t_done
          \<and> upcomingMidnightPT t_done \<le> t_done + ms_per_day"
proof -
  from quotaResetDate_bounds [of t_done] obtain r where r: "quotaResetDate t_done = Iso r"
    "upcomingMidnightPT t_done + 59000 \<le> r" "r < upcomingMidnightPT t_done + 60000"
    by blast
  note m = upcomingMidnightPT_is_midnight [of t_done]
  from assms(2) obtain calls
    where "listEvents fetchPage client (params_of st) [] maxPages = (Rejected e, calls)"
    by (cases "listEvents fetchPage client (params_of st) [] maxPages") simp
  with assms(1,3) r(1)
  have cb: "fst (pawsGetLogs fetchPage (Inr client) maxPages P t_gate t_done st)
            = Callback_ok [] (st\<lparr>poll_interval_sec := 900, apiQuotaResetDate := Iso r\<rparr>) 900"
    by (simp add: pawsGetLogs_def onRejected_def Let_def)
  from m r(2) have lt: "t_done < r" by linarith
  show ?thesis
    by (intro exI [of _ "st\<lparr>poll_interval_sec := 900, apiQuotaResetDate := Iso r\<rparr>"]
          exI [of _ r]) (use cb lt r m in simp)
qed

theorem quota_exceeded_schedules_reset_witness:
  "\<not> quotaInEffect 1574352000000 \<lparr>application = JStr ''login'', since = Iso 1574352000000,
         until = Iso 1574352060000, nextPage = None,
         apiQuotaResetDate = Null, poll_interval_sec = 60\<rparr>
   \<and> fst (listEvents (\<lambda>c q. Inl (FetchError (Some [''dailyLimitExceeded''])) :: fetch_error + nat page) () (params_of \<lparr>application = JStr ''login'', since = Iso 1574352000000,
         until = Iso 1574352060000, nextPage = None,
         apiQuotaResetDate = Null, poll_interval_sec = 60\<rparr>) [] (Some 3))
       = Rejected (FetchError (Some [''dailyLimitExceeded'']))
   \<and> reasons (FetchError (Some [''dailyLimitExceeded''])) = Some (''dailyLimitExceeded'' # [])
   \<and> fst (pawsGetLogs (\<lambda>c q. Inl (FetchError (Some [''dailyLimitExceeded''])) :: fetch_error + nat page) (Inr ()) (Some 3) 60 1574352000000 1574352000000 \<lparr>application = JStr ''login'', since = Iso 1574352000000,
         until = Iso 1574352060000, nextPage = None,
         apiQuotaResetDate = Null, poll_interval_sec = 60\<rparr>)
       = Callback_ok []
          \<lparr>application = JStr ''login'', since = Iso 1574352000000,
           until = Iso 1574352060000, nextPage = None,
           apiQuotaResetDate = Iso 1574409659000, poll_interval_sec = 900\<rparr> 900
   \<and> upcomingMidnightPT 1574352000000 = 1574409600000"
proof -
  have q: "quotaResetDate 1574352000000 = Iso 1574409659000"
    by (simp add: quotaResetDate_def Let_def endOf_day_def absFloor_div_def ms_per_hour_def
        ms_per_day_def ms_per_second_def)
  have u: "upcomingMidnightPT 1574352000000 = 1574409600000"
    by (simp add: upcomingMidnightPT_def ms_per_hour_def ms_per_day_def)
  have g: "\<not> quotaInEffect 1574352000000 \<lparr>application = JStr ''login'', since = Iso 1574352000000,
         until = Iso 1574352060000, nextPage = None,
         apiQuotaResetDate = Null, poll_interval_sec = 60\<rparr>"
    by (simp add: quotaInEffect_def)
  have l: "fst (listEvents (\<lambda>c q. Inl (FetchError (Some [''dailyLimitExceeded''])) :: fetch_error + nat page) () (params_of \<lparr>application = JStr ''login'', since = Iso 1574352000000,
         until = Iso 1574352060000, nextPage = None,
         apiQuotaResetDate = Null, poll_interval_sec = 60\<rparr>) [] (Some 3))
       = Rejected (FetchError (Some [''dailyLimitExceeded'']))"
    by (simp add: listEvents_def pageBudget_of_def numeral_2_eq_2)
  from quota_exceeded_schedules_reset [OF g l, of "[]" 60 1574352000000]
  show ?thesis using g l u q by auto
qed

section \<open>More pages pending\<close>

text \<open>
  C5. When the quota gate is open and the fetch resolves with a continuation token, the
  callback receives the records, a delay of 1 second, and the state of the input with
  \<open>nextPage\<close> set to the new token, \<open>apiQuotaResetDate\<close> cleared and
  \<open>poll_interval_sec\<close> (the delay) set to 1: \<open>application\<close>, \<open>since\<close> and \<open>until\<close>
  are those of the input.
\<close>

theorem more_pages_keeps_window:
  assumes "\<not> quotaInEffect t_gate st"
    and "fst (listEvents fetchPage client (params_of st) [] maxPages) = Resolved acc (Some tok)"
  shows "fst (pawsGetLogs fetchPage (Inr client) maxPages P t_gate t_done st)
           = Callback_ok acc (getNextCollectionStateWithNextPage st tok) 1
       \<and> getNextCollectionStateWithNextPage st tok
           = st\<lparr>nextPage := Some tok, apiQuotaResetDate := Null, poll_interval_sec := 1\<rparr>
       \<and> application (getNextCollectionStateWithNextPage st tok) = application st
       \<and> since (getNextCollectionStateWithNextPage st tok) = since st
       \<and> until (getNextCollectionStateWithNextPage st tok) = until st"
  using assms
  by (cases "listEvents fetchPage client (params_of st) [] maxPages")
     (simp add: pawsGetLogs_def onResolved_def Let_def getNextCollectionStateWithNextPage_def)

theorem more_pages_keeps_window_witness:
  "\<not> quotaInEffect 1574352065000
        \<lparr>application = JStr ''login'', since = Iso 1574352000000,
         until = Iso 1574352060000, nextPage = None,
         apiQuotaResetDate = Null, poll_interval_sec = 60\<rparr>
   \<and> fst (listEvents (\<lambda>c p. Inr \<lparr>items = [7::nat], nextPageToken = Some ''tok2''\<rparr>) ()
          (params_of \<lparr>application = JStr ''login'', since = Iso 1574352000000,
             until = Iso 1574352060000, nextPage = None,
             apiQuotaResetDate = Null, poll_interval_sec = 60\<rparr>) [] (Some 1))
       = Resolved [7] (Some ''tok2'')
   \<and> fst (pawsGetLogs (\<lambda>c p. Inr \<lparr>items = [7::nat], nextPageToken = Some ''tok2''\<rparr>) (Inr ())
          (Some 1) 60 1574352065000 1574352066000
          \<lparr>application = JStr ''login'', since = Iso 1574352000000,
           until = Iso 1574352060000, nextPage = None,
           apiQuotaResetDate = Null, poll_interval_sec = 60\<rparr>)
       = Callback_ok [7]
          \<lparr>application = JStr ''login'', since = Iso 1574352000000,
           until = Iso 1574352060000, nextPage = Some ''tok2'',
           apiQuotaResetDate = Null, poll_interval_sec = 1\<rparr> 1"
  using more_pages_keeps_window [where st = "\<lparr>application = JStr ''login'',
      since = Iso 1574352000000, until = Iso 1574352060000, nextPage = None,
      apiQuotaResetDate = Null, poll_interval_sec = 60\<rparr>"
    and t_gate = 1574352065000 and t_done = 1574352066000 and P = 60
    and maxPages = "Some 1" and client = "()" and acc = "[7]" and tok = "''tok2''"
    and fetchPage = "\<lambda>c p. Inr \<lparr>items = [7::nat], nextPageToken = Some ''tok2''\<rparr>"]
  by (simp add: quotaInEffect_def listEvents_def pageBudget_of_def params_of_def)

section \<open>Fetching the pages\<close>

text \<open>
  C7. Take a positive budget and an upstream that answers the requests from the first one
  on with the pages \<open>pgs\<close>, either up to the page on which it omits the token or, when
  it goes on handing out tokens, at least as far as the budget reaches. The fetcher makes
  exactly the minimum of the number of those pages and the budget requests, the first with
  the parameters as given; it returns the items of the pages fetched, in the upstream's
  order, and the token of the last page fetched. Where \<open>pgs\<close> ends with the page that
  omits the token, a continuation token is returned exactly when the budget is smaller
  than the number of pages. With a budget of 3 and three pages, the third without a token,
  it makes 3 requests and returns all the items and no token.
\<close>

theorem fetcher_calls_and_token:
  assumes "0 < budget" and "upstream_pages (fetchPage client) p pgs"
    and "nextPageToken (last pgs) = None \<or> budget \<le> length pgs"
  shows "fst (listEvents fetchPage client p [] (Some budget))
           = Resolved (concat (map items (take (min (length pgs) budget) pgs)))
               (nextPageToken (pgs ! (min (length pgs) budget - 1)))
       \<and> length (snd (listEvents fetchPage client p [] (Some budget))) = min (length pgs) budget
       \<and> (\<exists>rest. snd (listEvents fetchPage client p [] (Some budget)) = p # rest)
       \<and> (nextPageToken (last pgs) = None \<longrightarrow>
            (nextPageToken (pgs ! (min (length pgs) budget - 1)) \<noteq> None) = (budget < length pgs))"
proof -
  from assms(1) obtain left where b: "budget = Suc left" by (cases budget) auto
  have le: "listEvents fetchPage client p [] (Some (Suc left))
            = fetchPages (fetchPage client) p left [] []"
    by (simp add: listEvents_def pageBudget_of_def)
  from assms(3) have c: "nextPageToken (last pgs) = None \<or> Suc left \<le> length pgs"
    by (simp add: b)
  note served = fetchPages_served [OF assms(2) c, of "[]" "[]"]
  from assms(2) have ne: "pgs \<noteq> []" by auto
  have r: "fst (listEvents fetchPage client p [] (Some budget))
           = Resolved (concat (map items (take (min (length pgs) budget) pgs)))
               (nextPageToken (pgs ! (min (length pgs) budget - 1)))"
    unfolding b le using served by (simp add: min_def)
  have n: "length (snd (listEvents fetchPage client p [] (Some budget))) = min (length pgs) budget"
    unfolding b le using served by simp
  have f: "\<exists>rest. snd (listEvents fetchPage client p [] (Some budget)) = p # rest"
    unfolding b le using fetchPages_first_call [of "fetchPage client" p left "[]" "[]"] by simp
  have t: "(nextPageToken (pgs ! (min (length pgs) budget - 1)) \<noteq> None) = (budget < length pgs)"
    if l: "nextPageToken (last pgs) = None"
  proof (cases "budget < length pgs")
    case True
    with served_tokens [OF assms(2), of left] show ?thesis by (simp add: b min_def)
  next
    case False
    then have "min (length pgs) budget - 1 = length pgs - 1" by simp
    with l ne False show ?thesis by (simp add: last_conv_nth)
  qed
  from r n f t show ?thesis by blast
qed

theorem fetcher_calls_and_token_witness:
  "(0::nat) < 3
   \<and> upstream_pages
        ((\<lambda>c q. case pageToken q of
                  None \<Rightarrow> Inr \<lparr>items = [1::nat, 2], nextPageToken = Some ''t1''\<rparr>
                | Some t \<Rightarrow> if t = ''t1'' then Inr \<lparr>items = [3], nextPageToken = Some ''t2''\<rparr>
                            else Inr \<lparr>items = [4, 5], nextPageToken = None\<rparr>) ())
        \<lparr>pageToken = None, startTime = Iso 1574352000000, endTime = Iso 1574352060000,
         userKey = ''all'', applicationName = JStr ''login''\<rparr>
        [\<lparr>items = [1, 2], nextPageToken = Some ''t1''\<rparr>,
         \<lparr>items = [3], nextPageToken = Some ''t2''\<rparr>,
         \<lparr>items = [4, 5], nextPageToken = None\<rparr>]
   \<and> nextPageToken (last [\<lparr>items = [1::nat, 2], nextPageToken = Some ''t1''\<rparr>,
         \<lparr>items = [3], nextPageToken = Some ''t2''\<rparr>,
         \<lparr>items = [4, 5], nextPageToken = None\<rparr>]) = None
   \<and> fst (listEvents
        (\<lambda>c q. case pageToken q of
                  None \<Rightarrow> Inr \<lparr>items = [1::nat, 2], nextPageToken = Some ''t1''\<rparr>
                | Some t \<Rightarrow> if t = ''t1'' then Inr \<lparr>items = [3], nextPageToken = Some ''t2''\<rparr>
                            else Inr \<lparr>items = [4, 5], nextPageToken = None\<rparr>) ()
        \<lparr>pageToken = None, startTime = Iso 1574352000000, endTime = Iso 1574352060000,
         userKey = ''all'', applicationName = JStr ''login''\<rparr> [] (Some 3))
       = Resolved [1, 2, 3, 4, 5] None
   \<and> length (snd (listEvents
        (\<lambda>c q. case pageToken q of
                  None \<Rightarrow> Inr \<lparr>items = [1::nat, 2], nextPageToken = Some ''t1''\<rparr>
                | Some t \<Rightarrow> if t = ''t1'' then Inr \<lparr>items = [3], nextPageToken = Some ''t2''\<rparr>
                            else Inr \<lparr>items = [4, 5], nextPageToken = None\<rparr>) ()
        \<lparr>pageToken = None, startTime = Iso 1574352000000, endTime = Iso 1574352060000,
         userKey = ''all'', applicationName = JStr ''login''\<rparr> [] (Some 3))) = 3"
  using fetcher_calls_and_token [where budget = 3 and client = "()"
    and fetchPage = "\<lambda>c q. case pageToken q of
                  None \<Rightarrow> Inr \<lparr>items = [1::nat, 2], nextPageToken = Some ''t1''\<rparr>
                | Some t \<Rightarrow> if t = ''t1'' then Inr \<lparr>items = [3], nextPageToken = Some ''t2''\<rparr>
                            else Inr \<lparr>items = [4, 5], nextPageToken = None\<rparr>"
    and p = "\<lparr>pageToken = None, startTime = Iso 1574352000000, endTime = Iso 1574352060000,
         userKey = ''all'', applicationName = JStr ''login''\<rparr>"
    and pgs = "[\<lparr>items = [1, 2], nextPageToken = Some ''t1''\<rparr>,
         \<lparr>items = [3], nextPageToken = Some ''t2''\<rparr>,
         \<lparr>items = [4, 5], nextPageToken = None\<rparr>]"]
  by simp

text \<open>
  C8. When the quota gate is open and any page request of the fetch is answered with the
  daily-limit error, the callback receives an empty record list, whatever the earlier
  pages of the same invocation held, together with the state marked as out of quota and
  the delay of 900 seconds.
\<close>

theorem quota_error_discards_partial_result:
  assumes "\<not> quotaInEffect t_gate st"
    and "q \<in> set (snd (listEvents fetchPage client (params_of st) [] maxPages))"
    and "fetchPage client q = Inl (FetchError (Some (''dailyLimitExceeded'' # rest)))"
  shows "fst (pawsGetLogs fetchPage (Inr client) maxPages P t_gate t_done st)
         = Callback_ok []
             (st\<lparr>poll_interval_sec := 900, apiQuotaResetDate := quotaResetDate t_done\<rparr>) 900"
proof -
  let ?e = "FetchError (Some (''dailyLimitExceeded'' # rest))"
  from assms(2)
  have "q \<in> set (snd (fetchPages (fetchPage client) (params_of st)
                        (pageBudget_of maxPages - 1) [] []))"
    by (simp add: listEvents_def)
  from fetchPages_error_rejects [OF this _ assms(3)]
  have "fst (listEvents fetchPage client (params_of st) [] maxPages) = Rejected ?e"
    by (simp add: listEvents_def)
  then obtain calls where "listEvents fetchPage client (params_of st) [] maxPages = (Rejected ?e, calls)"
    by (cases "listEvents fetchPage client (params_of st) [] maxPages") simp
  with assms(1) show ?thesis
    by (simp add: pawsGetLogs_def onRejected_def Let_def)
qed

theorem quota_error_discards_partial_result_witness:
  "\<not> quotaInEffect 1574352065000 \<lparr>application = JStr ''login'', since = Iso 1574352000000,
         until = Iso 1574352060000, nextPage = None,
         apiQuotaResetDate = Null, poll_interval_sec = 60\<rparr>
   \<and> snd (listEvents (\<lambda>c q. case pageToken q of
                  None \<Rightarrow> Inr \<lparr>items = [1::nat, 2], nextPageToken = Some ''t1''\<rparr>
                | Some t \<Rightarrow> Inl (FetchError (Some [''dailyLimitExceeded'']))) () (params_of \<lparr>application = JStr ''login'', since = Iso 1574352000000,
         until = Iso 1574352060000, nextPage = None,
         apiQuotaResetDate = Null, poll_interval_sec = 60\<rparr>) [] (Some 3))
       = [params_of \<lparr>application = JStr ''login'', since = Iso 1574352000000,
         until = Iso 1574352060000, nextPage = None,
         apiQuotaResetDate = Null, poll_interval_sec = 60\<rparr>, (params_of \<lparr>application = JStr ''login'', since = Iso 1574352000000,
         until = Iso 1574352060000, nextPage = None,
         apiQuotaResetDate = Null, poll_interval_sec = 60\<rparr>)\<lparr>pageToken := Some ''t1''\<rparr>]
   \<and> (\<lambda>c q. case pageToken q of
                  None \<Rightarrow> Inr \<lparr>items = [1::nat, 2], nextPageToken = Some ''t1''\<rparr>
                | Some t \<Rightarrow> Inl (FetchError (Some [''dailyLimitExceeded'']))) () ((params_of \<lparr>application = JStr ''login'', since = Iso 1574352000000,
         until = Iso 1574352060000, nextPage = None,
         apiQuotaResetDate = Null, poll_interval_sec = 60\<rparr>)\<lparr>pageToken := Some ''t1''\<rparr>)
       = Inl (FetchError (Some (''dailyLimitExceeded'' # [])))
   \<and> fst (pawsGetLogs (\<lambda>c q. case pageToken q of
                  None \<Rightarrow> Inr \<lparr>items = [1::nat, 2], nextPageToken = Some ''t1''\<rparr>
                | Some t \<Rightarrow> Inl (FetchError (Some [''dailyLimitExceeded'']))) (Inr ()) (Some 3) 60 1574352065000 1574352066000 \<lparr>application = JStr ''login'', since = Iso 1574352000000,
         until = Iso 1574352060000, nextPage = None,
         apiQuotaResetDate = Null, poll_interval_sec = 60\<rparr>)
       = Callback_ok []
          \<lparr>application = JStr ''login'', since = Iso 1574352000000,
           until = Iso 1574352060000, nextPage = None,
           apiQuotaResetDate = Iso 1574409659000, poll_interval_sec = 900\<rparr> 900"
proof -
  have q: "quotaResetDate 1574352066000 = Iso 1574409659000"
    by (simp add: quotaResetDate_def Let_def endOf_day_def absFloor_div_def ms_per_hour_def
        ms_per_day_def ms_per_second_def)
  have g: "\<not> quotaInEffect 1574352065000 \<lparr>application = JStr ''login'', since = Iso 1574352000000,
         until = Iso 1574352060000, nextPage = None,
         apiQuotaResetDate = Null, poll_interval_sec = 60\<rparr>"
    by (simp add: quotaInEffect_def)
  have l: "snd (listEvents (\<lambda>c q. case pageToken q of
                  None \<Rightarrow> Inr \<lparr>items = [1::nat, 2], nextPageToken = Some ''t1''\<rparr>
                | Some t \<Rightarrow> Inl (FetchError (Some [''dailyLimitExceeded'']))) () (params_of \<lparr>application = JStr ''login'', since = Iso 1574352000000,
         until = Iso 1574352060000, nextPage = None,
         apiQuotaResetDate = Null, poll_interval_sec = 60\<rparr>) [] (Some 3))
       = [params_of \<lparr>application = JStr ''login'', since = Iso 1574352000000,
         until = Iso 1574352060000, nextPage = None,
         apiQuotaResetDate = Null, poll_interval_sec = 60\<rparr>, (params_of \<lparr>application = JStr ''login'', since = Iso 1574352000000,
         until = Iso 1574352060000, nextPage = None,
         apiQuotaResetDate = Null, poll_interval_sec = 60\<rparr>)\<lparr>pageToken := Some ''t1''\<rparr>]"
    by (simp add: listEvents_def pageBudget_of_def numeral_2_eq_2 params_of_def)
  have m: "(params_of \<lparr>application = JStr ''login'', since = Iso 1574352000000,
         until = Iso 1574352060000, nextPage = None,
         apiQuotaResetDate = Null, poll_interval_sec = 60\<rparr>)\<lparr>pageToken := Some ''t1''\<rparr>
             \<in> set (snd (listEvents (\<lambda>c q. case pageToken q of
                  None \<Rightarrow> Inr \<lparr>items = [1::nat, 2], nextPageToken = Some ''t1''\<rparr>
                | Some t \<Rightarrow> Inl (FetchError (Some [''dailyLimitExceeded'']))) () (params_of \<lparr>application = JStr ''login'', since = Iso 1574352000000,
         until = Iso 1574352060000, nextPage = None,
         apiQuotaResetDate = Null, poll_interval_sec = 60\<rparr>) [] (Some 3)))"
    by (simp add: l)
  have f: "(\<lambda>c q. case pageToken q of
                  None \<Rightarrow> Inr \<lparr>items = [1::nat, 2], nextPageToken = Some ''t1''\<rparr>
                | Some t \<Rightarrow> Inl (FetchError (Some [''dailyLimitExceeded'']))) () ((params_of \<lparr>application = JStr ''login'', since = Iso 1574352000000,
         until = Iso 1574352060000, nextPage = None,
         apiQuotaResetDate = Null, poll_interval_sec = 60\<rparr>)\<lparr>pageToken := Some ''t1''\<rparr>)
       = Inl (FetchError (Some (''dailyLimitExceeded'' # [])))"
    by simp
  note t = quota_error_discards_partial_result [where st = "\<lparr>application = JStr ''login'', since = Iso 1574352000000,
         until = Iso 1574352060000, nextPage = None,
         apiQuotaResetDate = Null, poll_interval_sec = 60\<rparr>" and fetchPage = "(\<lambda>c q. case pageToken q of
                  None \<Rightarrow> Inr \<lparr>items = [1::nat, 2], nextPageToken = Some ''t1''\<rparr>
                | Some t \<Rightarrow> Inl (FetchError (Some [''dailyLimitExceeded''])))"
      and client = "()" and maxPages = "Some 3" and t_gate = 1574352065000
      and t_done = 1574352066000 and P = 60 and rest = "[]"
      and q = "(params_of \<lparr>application = JStr ''login'', since = Iso 1574352000000,
         until = Iso 1574352060000, nextPage = None,
         apiQuotaResetDate = Null, poll_interval_sec = 60\<rparr>)\<lparr>pageToken := Some ''t1''\<rparr>"]
  from t [OF g m] f have "fst (pawsGetLogs (\<lambda>c q. case pageToken q of
                  None \<Rightarrow> Inr \<lparr>items = [1::nat, 2], nextPageToken = Some ''t1''\<rparr>
                | Some t \<Rightarrow> Inl (FetchError (Some [''dailyLimitExceeded'']))) (Inr ()) (Some 3) 60 1574352065000 1574352066000 \<lparr>application = JStr ''login'', since = Iso 1574352000000,
         until = Iso 1574352060000, nextPage = None,
         apiQuotaResetDate = Null, poll_interval_sec = 60\<rparr>)
       = Callback_ok []
          (\<lparr>application = JStr ''login'', since = Iso 1574352000000,
         until = Iso 1574352060000, nextPage = None,
         apiQuotaResetDate = Null, poll_interval_sec = 60\<rparr>\<lparr>poll_interval_sec := 900, apiQuotaResetDate := quotaResetDate 1574352066000\<rparr>) 900"
    by simp
  then show ?thesis using g l f by (simp add: q)
qed

section \<open>Monotone windows\<close>

text \<open>
  A run the code can make, without any quota error and with a clock that only advances:
  the start timestamp is configured ten minutes ahead of the clock, and the first window is
  drained one minute after initialisation. Both \<open>since\<close> and \<open>until\<close> move backwards.
\<close>

theorem since_moves_back_counterexample:
  "pawsInitCollectionState (Start_ts 1574352600000) (Json (JArr [JStr ''login''])) 60
      1574352000000
     = Inr ([\<lparr>application = JStr ''login'', since = Iso 1574352600000,
              until = Iso 1574352660000, nextPage = None, apiQuotaResetDate = Null,
              poll_interval_sec = 1\<rparr>], 1)
   \<and> states_visited () (Some 3) 60
        \<lparr>application = JStr ''login'', since = Iso 1574352600000,
         until = Iso 1574352660000, nextPage = None, apiQuotaResetDate = Null,
         poll_interval_sec = 1\<rparr>
        [\<lparr>at_gate = 1574352065000, at_done = 1574352066000,
          upstream = \<lambda>c q. Inr \<lparr>items = [1::nat], nextPageToken = None\<rparr>\<rparr>]
     = [\<lparr>application = JStr ''login'', since = Iso 1574352600000,
         until = Iso 1574352660000, nextPage = None, apiQuotaResetDate = Null,
         poll_interval_sec = 1\<rparr>,
        \<lparr>application = JStr ''login'', since = Iso 1574352066000,
         until = Iso 1574352126000, nextPage = None, apiQuotaResetDate = Null,
         poll_interval_sec = 60\<rparr>]
   \<and> \<not> ts_le (Iso 1574352600000) (Iso 1574352066000)
   \<and> \<not> ts_le (Iso 1574352660000) (Iso 1574352126000)"
  by (simp add: pawsInitCollectionState_def Let_def pawsGetLogs_def quotaInEffect_def
      listEvents_def pageBudget_of_def numeral_2_eq_2 onResolved_def persisted_def
      getNextCollectionState_def absFloor_div_def ms_per_hour_def ms_per_second_def)

text \<open>
  C6, as the code has it. Take a non-negative poll interval, a state produced by
  initialisation with the start timestamp unset or not after the clock at initialisation,
  and any sequence of invocations in which the clock never runs backwards and no page
  request is answered with the daily-limit error. Then over the states visited \<open>since\<close>
  and \<open>until\<close> are non-decreasing, and every state visited has \<open>since\<close> at or before
  \<open>until\<close>.
\<close>

theorem windows_advance_monotonically:
  assumes "0 \<le> P" and "start_not_after start t_init"
    and "pawsInitCollectionState start names P t_init = Inr (sts, d)" and "state \<in> set sts"
    and "clock_ok t_init ks"
    and "\<forall>k\<in>set ks. \<forall>q e. upstream k client q = Inl e \<longrightarrow> \<not> quota_error e"
  shows "sorted_wrt (\<lambda>a b. ts_le (since a) (since b) \<and> ts_le (until a) (until b))
           (states_visited client maxPages P state ks)
       \<and> (\<forall>s\<in>set (states_visited client maxPages P state ks). ts_le (since s) (until s))"
  using run_monotone [OF assms(1) init_window_ok [OF assms(1-4)] assms(5,6), of maxPages]
  by blast

theorem windows_advance_monotonically_witness:
  "(0::int) \<le> 60
   \<and> start_not_after Start_unset 1574352000000
   \<and> pawsInitCollectionState Start_unset (Json (JArr [JStr ''login''])) 60 1574352000000
       = Inr ([\<lparr>application = JStr ''login'', since = Iso 1574351700000,
                until = Iso 1574351760000, nextPage = None, apiQuotaResetDate = Null,
                poll_interval_sec = 1\<rparr>], 1)
   \<and> clock_ok 1574352000000
        [\<lparr>at_gate = 1574352001000, at_done = 1574352002000,
          upstream = \<lambda>c q. Inr \<lparr>items = [1::nat], nextPageToken = Some ''t1''\<rparr>\<rparr>,
         \<lparr>at_gate = 1574352003000, at_done = 1574352004000,
          upstream = \<lambda>c q. Inr \<lparr>items = [2], nextPageToken = None\<rparr>\<rparr>]
   \<and> states_visited () (Some 1) 60
        \<lparr>application = JStr ''login'', since = Iso 1574351700000,
         until = Iso 1574351760000, nextPage = None, apiQuotaResetDate = Null,
         poll_interval_sec = 1\<rparr>
        [\<lparr>at_gate = 1574352001000, at_done = 1574352002000,
          upstream = \<lambda>c q. Inr \<lparr>items = [1::nat], nextPageToken = Some ''t1''\<rparr>\<rparr>,
         \<lparr>at_gate = 1574352003000, at_done = 1574352004000,
          upstream = \<lambda>c q. Inr \<lparr>items = [2], nextPageToken = None\<rparr>\<rparr>]
     = [\<lparr>application = JStr ''login'', since = Iso 1574351700000,
         until = Iso 1574351760000, nextPage = None, apiQuotaResetDate = Null,
         poll_interval_sec = 1\<rparr>,
        \<lparr>application = JStr ''login'', since = Iso 1574351700000,
         until = Iso 1574351760000, nextPage = Some ''t1'', apiQuotaResetDate = Null,
         poll_interval_sec = 1\<rparr>,
        \<lparr>application = JStr ''login'', since = Iso 1574351760000,
         until = Iso 1574351820000, nextPage = None, apiQuotaResetDate = Null,
         poll_interval_sec = 1\<rparr>]
   \<and> sorted_wrt (\<lambda>a b. ts_le (since a) (since b) \<and> ts_le (until a) (until b))
        (states_visited () (Some 1) 60
          \<lparr>application = JStr ''login'', since = Iso 1574351700000,
           until = Iso 1574351760000, nextPage = None, apiQuotaResetDate = Null,
           poll_interval_sec = 1\<rparr>
          [\<lparr>at_gate = 1574352001000, at_done = 1574352002000,
            upstream = \<lambda>c q. Inr \<lparr>items = [1::nat], nextPageToken = Some ''t1''\<rparr>\<rparr>,
           \<lparr>at_gate = 1574352003000, at_done = 1574352004000,
            upstream = \<lambda>c q. Inr \<lparr>items = [2], nextPageToken = None\<rparr>\<rparr>])"
proof -
  have i: "pawsInitCollectionState Start_unset (Json (JArr [JStr ''login''])) 60 1574352000000
       = Inr ([\<lparr>application = JStr ''login'', since = Iso 1574351700000,
                until = Iso 1574351760000, nextPage = None, apiQuotaResetDate = Null,
                poll_interval_sec = 1\<rparr>], 1)"
    by (simp add: pawsInitCollectionState_def Let_def ms_per_second_def)
  have v: "states_visited () (Some 1) 60
        \<lparr>application = JStr ''login'', since = Iso 1574351700000,
         until = Iso 1574351760000, nextPage = None, apiQuotaResetDate = Null,
         poll_interval_sec = 1\<rparr>
        [\<lparr>at_gate = 1574352001000, at_done = 1574352002000,
          upstream = \<lambda>c q. Inr \<lparr>items = [1::nat], nextPageToken = Some ''t1''\<rparr>\<rparr>,
         \<lparr>at_gate = 1574352003000, at_done = 1574352004000,
          upstream = \<lambda>c q. Inr \<lparr>items = [2], nextPageToken = None\<rparr>\<rparr>]
     = [\<lparr>application = JStr ''login'', since = Iso 1574351700000,
         until = Iso 1574351760000, nextPage = None, apiQuotaResetDate = Null,
         poll_interval_sec = 1\<rparr>,
        \<lparr>application = JStr ''login'', since = Iso 1574351700000,
         until = Iso 1574351760000, nextPage = Some ''t1'', apiQuotaResetDate = Null,
         poll_interval_sec = 1\<rparr>,
        \<lparr>application = JStr ''login'', since = Iso 1574351760000,
         until = Iso 1574351820000, nextPage = None, apiQuotaResetDate = Null,
         poll_interval_sec = 1\<rparr>]"
    by (simp add: pawsGetLogs_def quotaInEffect_def listEvents_def pageBudget_of_def
        onResolved_def persisted_def getNextCollectionState_def Let_def
        getNextCollectionStateWithNextPage_def params_of_def
        absFloor_div_def ms_per_hour_def ms_per_second_def)
  note t = windows_advance_monotonically [where P = 60 and start = Start_unset
      and t_init = 1574352000000 and names = "Json (JArr [JStr ''login''])" and d = 1
      and sts = "[\<lparr>application = JStr ''login'', since = Iso 1574351700000,
                until = Iso 1574351760000, nextPage = None, apiQuotaResetDate = Null,
                poll_interval_sec = 1\<rparr>]"
      and state = "\<lparr>application = JStr ''login'', since = Iso 1574351700000,
                until = Iso 1574351760000, nextPage = None, apiQuotaResetDate = Null,
                poll_interval_sec = 1\<rparr>"
      and client = "()" and maxPages = "Some 1"
      and ks = "[\<lparr>at_gate = 1574352001000, at_done = 1574352002000,
          upstream = \<lambda>c q. Inr \<lparr>items = [1::nat], nextPageToken = Some ''t1''\<rparr>\<rparr>,
         \<lparr>at_gate = 1574352003000, at_done = 1574352004000,
          upstream = \<lambda>c q. Inr \<lparr>items = [2], nextPageToken = None\<rparr>\<rparr>]"]
  have p: "(0::int) \<le> 60" by simp
  have a: "start_not_after Start_unset 1574352000000" by simp
  have m: "\<lparr>application = JStr ''login'', since = Iso 1574351700000,
                until = Iso 1574351760000, nextPage = None, apiQuotaResetDate = Null,
                poll_interval_sec = 1\<rparr>
           \<in> set [\<lparr>application = JStr ''login'', since = Iso 1574351700000,
                until = Iso 1574351760000, nextPage = None, apiQuotaResetDate = Null,
                poll_interval_sec = 1\<rparr>]"
    by simp
  have c: "clock_ok 1574352000000
        [\<lparr>at_gate = 1574352001000, at_done = 1574352002000,
          upstream = \<lambda>c q. Inr \<lparr>items = [1::nat], nextPageToken = Some ''t1''\<rparr>\<rparr>,
         \<lparr>at_gate = 1574352003000, at_done = 1574352004000,
          upstream = \<lambda>c q. Inr \<lparr>items = [2], nextPageToken = None\<rparr>\<rparr>]"
    by simp
  have n: "\<forall>k\<in>set [\<lparr>at_gate = 1574352001000, at_done = 1574352002000,
          upstream = \<lambda>c q. Inr \<lparr>items = [1::nat], nextPageToken = Some ''t1''\<rparr>\<rparr>,
         \<lparr>at_gate = 1574352003000, at_done = 1574352004000,
          upstream = \<lambda>c q. Inr \<lparr>items = [2], nextPageToken = None\<rparr>\<rparr>]. \<forall>q e. upstream k () q = Inl e \<longrightarrow> \<not> quota_error e"
    by simp
  from t [OF p a i m c n] have s: "sorted_wrt (\<lambda>a b. ts_le (since a) (since b) \<and> ts_le (until a) (until b))
        (states_visited () (Some 1) 60
          \<lparr>application = JStr ''login'', since = Iso 1574351700000,
           until = Iso 1574351760000, nextPage = None, apiQuotaResetDate = Null,
           poll_interval_sec = 1\<rparr>
          [\<lparr>at_gate = 1574352001000, at_done = 1574352002000,
          upstream = \<lambda>c q. Inr \<lparr>items = [1::nat], nextPageToken = Some ''t1''\<rparr>\<rparr>,
         \<lparr>at_gate = 1574352003000, at_done = 1574352004000,
          upstream = \<lambda>c q. Inr \<lparr>items = [2], nextPageToken = None\<rparr>\<rparr>])"
    by (rule conjunct1)
  from p a i c v s show ?thesis by blast
qed

section \<open>Framing a record\<close>

text \<open>
  C9. For every raw event, \<open>pawsFormatLog\<close> returns a framed record and never throws:
  the message is the serialised event, the type tag is \<open>json/gsuite\<close> and the priority
  is 11. When no timestamp is found along the candidate paths the record is framed all the
  same, with the seconds of the library's fallback and without \<open>messageTsUs\<close>; when no
  type identifier is found, or a \<open>null\<close> one, it is framed without \<open>messageTypeId\<close>.
  A timestamp and a type identifier that are found are the ones framed.
\<close>

theorem format_log_frames_every_event:
  "\<exists>r. pawsFormatLog defaultSec readTs render stringify msg = Inr r
      \<and> message r = stringify msg
      \<and> messageType r = ''json/gsuite''
      \<and> priority r = 11
      \<and> progName r = ''GsuiteCollector''
      \<and> (firstMatch tsPaths msg = None \<longrightarrow> messageTs r = defaultSec \<and> messageTsUs r = None)
      \<and> (firstMatch typeIdPaths msg = None \<or> firstMatch typeIdPaths msg = Some JNull
           \<longrightarrow> messageTypeId r = None)
      \<and> (\<forall>v ts. firstMatch tsPaths msg = Some v \<and> readTs v = Some ts \<longrightarrow>
            messageTs r = sec ts
          \<and> messageTsUs r = (case usec ts of
                               None \<Rightarrow> None
                             | Some u \<Rightarrow> if u = 0 then None else Some u))
      \<and> (\<forall>v. firstMatch typeIdPaths msg = Some v \<and> v \<noteq> JNull \<longrightarrow>
            messageTypeId r = Some (render v))"
  by (auto simp: pawsFormatLog_def getMsgTs_def getMsgTypeId_def Let_def split: json.splits)

theorem format_log_frames_every_event_witness:
  "firstMatch tsPaths (JObj [(''actor'', JStr ''someone'')]) = None
   \<and> firstMatch typeIdPaths (JObj [(''actor'', JStr ''someone'')]) = None
   \<and> pawsFormatLog 1574352000 (\<lambda>v. None) (\<lambda>v. ''text'') (\<lambda>m. ''{...}'')
        (JObj [(''actor'', JStr ''someone'')])
       = Inr \<lparr>messageTs = 1574352000, priority = 11, progName = ''GsuiteCollector'',
              message = ''{...}'', messageType = ''json/gsuite'', messageTypeId = None,
              messageTsUs = None\<rparr>"
  using format_log_frames_every_event [where msg = "JObj [(''actor'', JStr ''someone'')]"
    and defaultSec = 1574352000 and readTs = "\<lambda>v. None" and render = "\<lambda>v. ''text''"
    and stringify = "\<lambda>m. ''{...}''"]
  by (auto simp: tsPaths_def typeIdPaths_def)

section \<open>Initialisation with malformed settings\<close>

text \<open>
  A start timestamp that moment cannot read does not stop initialisation: with a well-formed
  list of one application, one state is handed to the callback, its \<open>since\<close> the
  configured text and its \<open>until\<close> \<open>null\<close>.
\<close>

theorem init_unparsable_start_counterexample:
  "pawsInitCollectionState (Start_garbage ''not-a-date'') (Json (JArr [JStr ''login''])) 60
      1574352000000
   = Inr ([\<lparr>application = JStr ''login'', since = Raw ''not-a-date'', until = Null,
            nextPage = None, apiQuotaResetDate = Null, poll_interval_sec = 1\<rparr>], 1)"
  by (simp add: pawsInitCollectionState_def)

text \<open>
  C10, as the code has it. Whatever the start timestamp, initialisation throws, and hands
  no state to the callback, when the list of applications is not JSON (a
  \<open>SyntaxError\<close>) or is JSON but not an array (a \<open>TypeError\<close>). A start timestamp that
  cannot be read is not rejected: with an array of applications, one state per
  application is produced, with the configured text as \<open>since\<close> and \<open>null\<close> as
  \<open>until\<close>.
\<close>

theorem init_rejects_unparsable_target_list:
  "pawsInitCollectionState start Not_json P now = Inl SyntaxError
   \<and> ((\<forall>xs. j \<noteq> JArr xs) \<longrightarrow> pawsInitCollectionState start (Json j) P now = Inl TypeError)
   \<and> pawsInitCollectionState (Start_garbage s) (Json (JArr apps)) P now
       = Inr (map (\<lambda>app. \<lparr>application = app, since = Raw s, until = Null, nextPage = None,
                            apiQuotaResetDate = Null, poll_interval_sec = 1\<rparr>) apps, 1)"
  by (cases j) (simp_all add: pawsInitCollectionState_def Let_def)

theorem init_rejects_unparsable_target_list_witness:
  "(\<forall>xs. JStr ''login'' \<noteq> JArr xs)
   \<and> pawsInitCollectionState (Start_ts 1574352000000) (Json (JStr ''login'')) 60 1574352000000
       = Inl TypeError
   \<and> pawsInitCollectionState (Start_ts 1574352000000) Not_json 60 1574352000000
       = (Inl SyntaxError :: js_exn + collection_state list \<times> int)"
  using init_rejects_unparsable_target_list [where j = "JStr ''login''"
    and start = "Start_ts 1574352000000" and P = 60 and now = 1574352000000]
  by simp

end
